theory Spec2Isabelle
  imports Complex_Main "HOL-Library.Word"
begin

section \<open>Data model of \<open>src/index.tsx\<close>\<close>

text \<open>
  The component \<open>App\<close> keeps its state in React hooks. The model is one record holding
  every hook the selection, history and restore handlers read or write, and each handler
  is a function from the state before the event to the state after it.

  JavaScript numbers are IEEE doubles; the coordinates are modelled as reals, so
  \<open>Math.min\<close> and \<open>Math.abs\<close> are exact and every coordinate is finite.
  A JavaScript string is the list of its UTF-16 code units.

  Objects are shared by reference in JavaScript, and \<open>onMouseMove\<close> writes to a
  \<open>SelectionArea\<close> object in place. The model therefore keeps the
  \<open>SelectionArea\<close> objects in an explicit store (\<open>store\<close>: an arena, the address
  of an object is its index), and the arrays \<open>selections\<close> and
  \<open>HistoryState.selections\<close> are lists of addresses. Arrays themselves are never
  written in place by the source (\<open>[...prev]\<close>, \<open>filter\<close> and \<open>slice\<close> build new
  ones), so a list value stands for an array.
\<close>

type_synonym jsstring = "nat list"

type_synonym addr = nat

definition MAX_CHAR_LIMIT :: nat where
  "MAX_CHAR_LIMIT = 300"

definition MAX_SELECTIONS :: nat where
  "MAX_SELECTIONS = 10"

record SelectionArea =
  sel_id :: int
  sel_x :: real
  sel_y :: real
  sel_w :: real
  sel_h :: real

record HistoryState =
  hs_selections :: "addr list"
  hs_replacements :: "int \<rightharpoonup> jsstring"

text \<open>A pixel is four 8-bit channels: red, green, blue and alpha. A decoded image and
  an encoded result hold straight (not premultiplied) colour.\<close>

type_synonym channel = "8 word"

type_synonym pixel = "channel \<times> channel \<times> channel \<times> channel"

record bitmap =
  bm_width :: nat
  bm_height :: nat
  bm_pixel :: "nat \<Rightarrow> nat \<Rightarrow> pixel"

text \<open>The two \<open>alert\<close> calls of the selection and restore handlers that the claims
  distinguish, and the one of \<open>onMouseDown\<close>.\<close>

datatype notice = MaxSelectionsNotice | EmptyInstructionNotice | RestoreFailedNotice

datatype image_size = Size1K | Size2K | Size4K

datatype aspect_ratio = Ratio16x9 | Ratio4x3

text \<open>One line of \<open>areasInstructions\<close>. Its four numbers are
  \<open>Math.round((v / d) * 1000)\<close> in double arithmetic, \<open>v\<close> a coordinate of the
  region and \<open>d\<close> the canvas width or height; doubles are not modelled, so the record
  keeps the operands (the region's rectangle and the canvas size) and not the rounded
  numbers.\<close>

record AreaInstruction =
  area_no :: nat
  area_rect :: "real \<times> real \<times> real \<times> real"
  area_canvas :: "nat \<times> nat"
  area_text :: jsstring

record gen_request =
  req_data :: "jsstring option"
  req_areas :: "AreaInstruction list"
  req_size :: image_size
  req_ratio :: aspect_ratio

record app_state =
  store :: "SelectionArea list"
  image_src :: "jsstring option"
  isProcessing :: bool
  selections :: "addr list"
  replacements :: "int \<rightharpoonup> jsstring"
  resultImage :: "bitmap option"
  history :: "HistoryState list"
  historyIndex :: int
  isDrawing :: bool
  startPos :: "real \<times> real"
  alerts :: "notice list"
  sent :: "gen_request list"

text \<open>The state of the first render: the initial values of the hooks (lines 28--49).\<close>

definition initial :: app_state where
  "initial = \<lparr> store = [], image_src = None, isProcessing = False, selections = [],
     replacements = Map.empty, resultImage = None, history = [], historyIndex = - 1,
     isDrawing = False, startPos = (0, 0), alerts = [], sent = [] \<rparr>"

text \<open>Reading through a reference, and the value an array of references stands for
  (what \<open>JSON.stringify\<close> would print: the deep value).\<close>

definition deref :: "SelectionArea list \<Rightarrow> addr \<Rightarrow> SelectionArea" where
  "deref st a = st ! a"

definition deep :: "SelectionArea list \<Rightarrow> addr list \<Rightarrow> SelectionArea list" where
  "deep st refs = map (deref st) refs"

text \<open>JavaScript has no dangling reference: every address a state holds is allocated.\<close>

definition refs_ok :: "SelectionArea list \<Rightarrow> addr list \<Rightarrow> bool" where
  "refs_ok st refs = list_all (\<lambda>a. a < length st) refs"

definition wf_state :: "app_state \<Rightarrow> bool" where
  "wf_state s = (refs_ok (store s) (selections s) \<and>
     list_all (\<lambda>h. refs_ok (store s) (hs_selections h)) (history s))"

section \<open>History log: \<open>pushToHistory\<close>, \<open>undo\<close>, \<open>redo\<close> (lines 97--128)\<close>

text \<open>\<open>Array.prototype.slice(0, e)\<close>: a negative end counts from the end of the array.\<close>

definition slice0 :: "'a list \<Rightarrow> int \<Rightarrow> 'a list" where
  "slice0 xs e = (if e < 0 then take (nat (int (length xs) + e)) xs else take (nat e) xs)"

text \<open>\<open>xs[i]\<close> for a number \<open>i\<close>: \<open>undefined\<close> (here \<open>None\<close>) out of range.\<close>

definition js_index :: "'a list \<Rightarrow> int \<Rightarrow> 'a option" where
  "js_index xs i = (if 0 \<le> i \<and> i < int (length xs) then Some (xs ! nat i) else None)"

text \<open>\<open>JSON.parse(JSON.stringify(newSelections))\<close>: one fresh object per element, with
  the fields of the element it copies; the new array holds the fresh addresses.\<close>

definition copied_store :: "SelectionArea list \<Rightarrow> addr list \<Rightarrow> SelectionArea list" where
  "copied_store st refs = st @ deep st refs"

definition copied_refs :: "SelectionArea list \<Rightarrow> addr list \<Rightarrow> addr list" where
  "copied_refs st refs = [length st ..< length st + length refs]"

definition pushToHistory ::
  "app_state \<Rightarrow> addr list \<Rightarrow> (int \<rightharpoonup> jsstring) \<Rightarrow> app_state" where
  "pushToHistory s newSelections newReplacements =
     (let newState = \<lparr> hs_selections = copied_refs (store s) newSelections,
                       hs_replacements = newReplacements \<rparr>;
          truncated = slice0 (history s) (historyIndex s + 1);
          updated = truncated @ [newState]
      in s \<lparr> store := copied_store (store s) newSelections,
             history := (if length updated > 50 then drop 1 updated else updated),
             historyIndex := min (historyIndex s + 1) 49 \<rparr>)"

text \<open>In \<open>undo\<close> and \<open>redo\<close> the snapshot's own array becomes the live one
  (\<open>setSelections(prevState.selections)\<close>): no copy is made. Were the index out of range,
  \<open>prevState\<close> would be \<open>undefined\<close> and reading its field would throw before any
  setter runs, which leaves the state as it is.\<close>

definition undo :: "app_state \<Rightarrow> app_state" where
  "undo s =
     (if historyIndex s > 0 then
        (case js_index (history s) (historyIndex s - 1) of
           None \<Rightarrow> s
         | Some prevState \<Rightarrow>
             s \<lparr> selections := hs_selections prevState,
                 replacements := hs_replacements prevState,
                 historyIndex := historyIndex s - 1 \<rparr>)
      else if historyIndex s = 0 then
        s \<lparr> selections := [], replacements := Map.empty, historyIndex := - 1 \<rparr>
      else s)"

definition redo :: "app_state \<Rightarrow> app_state" where
  "redo s =
     (if historyIndex s < int (length (history s)) - 1 then
        (case js_index (history s) (historyIndex s + 1) of
           None \<Rightarrow> s
         | Some nextState \<Rightarrow>
             s \<lparr> selections := hs_selections nextState,
                 replacements := hs_replacements nextState,
                 historyIndex := historyIndex s + 1 \<rparr>)
      else s)"

text \<open>The buttons are enabled exactly when the operation is legal (the \<open>disabled\<close>
  attributes of the two buttons).\<close>

definition can_undo :: "app_state \<Rightarrow> bool" where
  "can_undo s = (\<not> historyIndex s < 0)"

definition can_redo :: "app_state \<Rightarrow> bool" where
  "can_redo s = (\<not> historyIndex s \<ge> int (length (history s)) - 1)"

datatype history_op = Commit "addr list" "int \<rightharpoonup> jsstring" | Undo | Redo

fun apply_op :: "app_state \<Rightarrow> history_op \<Rightarrow> app_state" where
  "apply_op s (Commit sels reps) = pushToHistory s sels reps"
| "apply_op s Undo = undo s"
| "apply_op s Redo = redo s"

fun run_ops :: "app_state \<Rightarrow> history_op list \<Rightarrow> app_state" where
  "run_ops s [] = s"
| "run_ops s (op # ops) = run_ops (apply_op s op) ops"

text \<open>The invariant of the log: at most 50 snapshots, cursor between \<open>-1\<close> and the last
  index.\<close>

definition hist_inv :: "app_state \<Rightarrow> bool" where
  "hist_inv s = (length (history s) \<le> 50 \<and> - 1 \<le> historyIndex s \<and>
     historyIndex s \<le> int (length (history s)) - 1)"

section \<open>Selection handlers (lines 207--253)\<close>

text \<open>
  A handler reads the hooks' values of the render it was created in, and an updater
  passed to a setter runs at the next render. The model lets every handler read and
  write the current state: React is taken to have rendered between two events, so that
  no updater is pending when an event arrives. A \<open>mouseup\<close> that arrives while
  updaters of \<open>mousemove\<close> are still pending commits the rectangles of the last
  render, not the latest ones; sessions with that timing are outside the model.
\<close>

text \<open>\<open>onMouseDown\<close>: the pointer position \<open>pos\<close> is the result of
  \<open>getCanvasCoords\<close> and \<open>newId\<close> the value of \<open>Date.now()\<close>. The new object is
  allocated at the next free address.\<close>

definition onMouseDown :: "app_state \<Rightarrow> int \<Rightarrow> real \<times> real \<Rightarrow> app_state" where
  "onMouseDown s newId pos =
     (if isProcessing s then s
      else if length (selections s) \<ge> MAX_SELECTIONS then
        s \<lparr> alerts := alerts s @ [MaxSelectionsNotice] \<rparr>
      else
        s \<lparr> isDrawing := True, startPos := pos,
            store := store s @ [\<lparr> sel_id = newId, sel_x = fst pos, sel_y = snd pos,
                                  sel_w = 0, sel_h = 0 \<rparr>],
            selections := selections s @ [length (store s)] \<rparr>)"

text \<open>\<open>onMouseMove\<close>: \<open>updated\<close> is a new array of the same references; the object
  \<open>last\<close> refers to is written in place. On an empty array \<open>last\<close> is \<open>undefined\<close>
  and nothing is written.\<close>

definition bounding_box :: "real \<times> real \<Rightarrow> real \<times> real \<Rightarrow> SelectionArea \<Rightarrow> SelectionArea" where
  "bounding_box start cur r =
     r \<lparr> sel_x := min (fst start) (fst cur), sel_y := min (snd start) (snd cur),
         sel_w := \<bar>fst cur - fst start\<bar>, sel_h := \<bar>snd cur - snd start\<bar> \<rparr>"

definition onMouseMove :: "app_state \<Rightarrow> real \<times> real \<Rightarrow> app_state" where
  "onMouseMove s currentPos =
     (if \<not> isDrawing s then s
      else if selections s = [] then s
      else
        (let a = last (selections s)
         in s \<lparr> store := (store s)[a := bounding_box (startPos s) currentPos (deref (store s) a)] \<rparr>))"

definition onMouseUp :: "app_state \<Rightarrow> app_state" where
  "onMouseUp s =
     (if isDrawing s then pushToHistory (s \<lparr> isDrawing := False \<rparr>) (selections s) (replacements s)
      else s)"

definition updateReplacement :: "app_state \<Rightarrow> int \<Rightarrow> jsstring \<Rightarrow> app_state" where
  "updateReplacement s i text =
     (if length text > MAX_CHAR_LIMIT then s
      else s \<lparr> replacements := (replacements s)(i \<mapsto> text) \<rparr>)"

definition handleReplacementBlur :: "app_state \<Rightarrow> int \<Rightarrow> app_state" where
  "handleReplacementBlur s i =
     (case js_index (history s) (historyIndex s) of
        None \<Rightarrow> pushToHistory s (selections s) (replacements s)
      | Some lastHistoryState \<Rightarrow>
          if hs_replacements lastHistoryState i \<noteq> replacements s i
          then pushToHistory s (selections s) (replacements s) else s)"

definition removeSelection :: "app_state \<Rightarrow> int \<Rightarrow> app_state" where
  "removeSelection s i =
     (let newSelections = filter (\<lambda>a. sel_id (deref (store s) a) \<noteq> i) (selections s);
          newReplacements = (replacements s)(i := None)
      in pushToHistory (s \<lparr> selections := newSelections, replacements := newReplacements \<rparr>)
           newSelections newReplacements)"

text \<open>A new source image (\<open>handleImageUpload\<close>, \<open>renderPdfPage\<close>) resets the
  selections, the result and the log.\<close>

definition loadImage :: "app_state \<Rightarrow> jsstring \<Rightarrow> app_state" where
  "loadImage s img =
     s \<lparr> image_src := Some img, resultImage := None, selections := [],
         replacements := Map.empty, history := [], historyIndex := - 1 \<rparr>"

text \<open>The events of the selection store and the history buttons, and a session as the
  list of its events in order.\<close>

datatype event =
    MouseDown int "real \<times> real"
  | MouseMove "real \<times> real"
  | MouseUp
  | UpdateReplacement int jsstring
  | ReplacementBlur int
  | RemoveSelection int
  | ClickUndo
  | ClickRedo
  | LoadImage jsstring

fun step :: "app_state \<Rightarrow> event \<Rightarrow> app_state" where
  "step s (MouseDown newId pos) = onMouseDown s newId pos"
| "step s (MouseMove pos) = onMouseMove s pos"
| "step s MouseUp = onMouseUp s"
| "step s (UpdateReplacement i text) = updateReplacement s i text"
| "step s (ReplacementBlur i) = handleReplacementBlur s i"
| "step s (RemoveSelection i) = removeSelection s i"
| "step s ClickUndo = (if can_undo s then undo s else s)"
| "step s ClickRedo = (if can_redo s then redo s else s)"
| "step s (LoadImage img) = loadImage s img"

fun run :: "app_state \<Rightarrow> event list \<Rightarrow> app_state" where
  "run s [] = s"
| "run s (e # es) = run (step s e) es"

text \<open>The deep value of the live selections and of the \<open>k\<close>-th stored snapshot.\<close>

definition live_view :: "app_state \<Rightarrow> SelectionArea list" where
  "live_view s = deep (store s) (selections s)"

definition snapshot_view :: "app_state \<Rightarrow> nat \<Rightarrow> SelectionArea list" where
  "snapshot_view s k = deep (store s) (hs_selections (history s ! k))"

section \<open>Compositing on a canvas (lines 322--343)\<close>

text \<open>
  The canvas is a platform object; it is modelled as a bitmap whose pixel \<open>(i, j)\<close> is
  the unit cell \<open>[i, i+1) \<times> [j, j+1)\<close> of canvas space. A 2D canvas stores 8-bit
  colour premultiplied by alpha: \<open>drawImage\<close> multiplies each colour channel of the
  image by its alpha (rounding to the nearest integer) and composites it source-over
  onto what the canvas holds, and \<open>toDataURL\<close> divides it out again. A pixel of alpha
  255 survives the two roundings unchanged; one of lower alpha in general does not.
  The nine-argument \<open>drawImage\<close> paints the destination rectangle and nothing else;
  what it paints there (scaling, smoothing, blending at a partly covered cell) is the
  browser's business and is a parameter \<open>rs\<close> of the model, about which nothing is
  assumed. It returns without drawing when the source width or height is zero.
\<close>

type_synonym rect = "real \<times> real \<times> real \<times> real"

type_synonym resampler = "bitmap \<Rightarrow> rect \<Rightarrow> rect \<Rightarrow> nat \<Rightarrow> nat \<Rightarrow> pixel \<Rightarrow> pixel"

text \<open>\<open>n / d\<close> rounded to the nearest integer, and a number stored in a channel
  (saturating at 255).\<close>

definition round_div :: "nat \<Rightarrow> nat \<Rightarrow> nat" where
  "round_div n d = (2 * n + d) div (2 * d)"

definition to_channel :: "nat \<Rightarrow> channel" where
  "to_channel n = of_nat (min 255 n)"

definition premul :: "channel \<Rightarrow> channel \<Rightarrow> channel" where
  "premul c a = to_channel (round_div (unat c * unat a) 255)"

definition unpremul :: "channel \<Rightarrow> channel \<Rightarrow> channel" where
  "unpremul c a = to_channel (round_div (unat c * 255) (unat a))"

definition premultiply :: "pixel \<Rightarrow> pixel" where
  "premultiply p = (case p of (r, g, b, a) \<Rightarrow> (premul r a, premul g a, premul b a, a))"

definition unpremultiply :: "pixel \<Rightarrow> pixel" where
  "unpremultiply p =
     (case p of (r, g, b, a) \<Rightarrow>
        if a = 0 then (0, 0, 0, 0) else (unpremul r a, unpremul g a, unpremul b a, a))"

text \<open>Source-over of a premultiplied pixel onto a premultiplied pixel: each channel is
  the upper one plus the lower one scaled by the upper pixel's transparency.\<close>

definition over_channel :: "channel \<Rightarrow> channel \<Rightarrow> channel \<Rightarrow> channel" where
  "over_channel c a below = to_channel (unat c + round_div (unat below * (255 - unat a)) 255)"

definition source_over :: "pixel \<Rightarrow> pixel \<Rightarrow> pixel" where
  "source_over p q =
     (case p of (r, g, b, a) \<Rightarrow>
        case q of (r', g', b', a') \<Rightarrow>
          (over_channel r a r', over_channel g a g', over_channel b a b', over_channel a a a'))"

text \<open>\<open>document.createElement('canvas')\<close> with its width and height set: transparent
  black.\<close>

definition createCanvas :: "nat \<Rightarrow> nat \<Rightarrow> bitmap" where
  "createCanvas w h = \<lparr> bm_width = w, bm_height = h, bm_pixel = (\<lambda>i j. (0, 0, 0, 0)) \<rparr>"

text \<open>\<open>ctx.drawImage(img, 0, 0)\<close>.\<close>

definition drawImageAt0 :: "bitmap \<Rightarrow> bitmap \<Rightarrow> bitmap" where
  "drawImageAt0 img cv =
     cv \<lparr> bm_pixel := (\<lambda>i j. if i < bm_width img \<and> j < bm_height img
                              then source_over (premultiply (bm_pixel img i j)) (bm_pixel cv i j)
                              else bm_pixel cv i j) \<rparr>"

text \<open>\<open>canvas.toDataURL('image/png')\<close>: the image the data URL encodes.\<close>

definition toDataURL :: "bitmap \<Rightarrow> bitmap" where
  "toDataURL cv = cv \<lparr> bm_pixel := (\<lambda>i j. unpremultiply (bm_pixel cv i j)) \<rparr>"

text \<open>The cell \<open>(i, j)\<close> meets the rectangle with corners \<open>(x, y)\<close> and
  \<open>(x + w, y + h)\<close>.\<close>

definition cell_meets :: "nat \<Rightarrow> nat \<Rightarrow> rect \<Rightarrow> bool" where
  "cell_meets i j r =
     (case r of (x, y, w, h) \<Rightarrow>
        min x (x + w) < real i + 1 \<and> real i < max x (x + w) \<and>
        min y (y + h) < real j + 1 \<and> real j < max y (y + h))"

definition drawImageSub :: "resampler \<Rightarrow> bitmap \<Rightarrow> rect \<Rightarrow> rect \<Rightarrow> bitmap \<Rightarrow> bitmap" where
  "drawImageSub rs img src dst cv =
     (case src of (sx, sy, sw, sh) \<Rightarrow>
        if sw = 0 \<or> sh = 0 then cv
        else cv \<lparr> bm_pixel := (\<lambda>i j. if cell_meets i j dst
                                     then rs img src dst i j (bm_pixel cv i j)
                                     else bm_pixel cv i j) \<rparr>)"

definition sel_rect :: "SelectionArea \<Rightarrow> rect" where
  "sel_rect sel = (sel_x sel, sel_y sel, sel_w sel, sel_h sel)"

text \<open>The body of the \<open>forEach\<close>. With a source image of width or height zero the scale
  is \<open>Infinity\<close> or \<open>NaN\<close>, so is an argument of \<open>drawImage\<close>, and \<open>drawImage\<close>
  returns without drawing.\<close>

definition paste :: "resampler \<Rightarrow> bitmap \<Rightarrow> bitmap \<Rightarrow> bitmap \<Rightarrow> SelectionArea \<Rightarrow> bitmap" where
  "paste rs originalImg aiImg cv sel =
     (if bm_width originalImg = 0 \<or> bm_height originalImg = 0 then cv
      else
        (let scaleX = real (bm_width aiImg) / real (bm_width originalImg);
             scaleY = real (bm_height aiImg) / real (bm_height originalImg)
         in drawImageSub rs aiImg
              (sel_x sel * scaleX, sel_y sel * scaleY, sel_w sel * scaleX, sel_h sel * scaleY)
              (sel_rect sel) cv))"

text \<open>Lines 322--341 leave the composite on the canvas; line 343 encodes it.\<close>

definition compositeCanvas :: "resampler \<Rightarrow> bitmap \<Rightarrow> bitmap \<Rightarrow> SelectionArea list \<Rightarrow> bitmap" where
  "compositeCanvas rs originalImg aiImg sels =
     foldl (paste rs originalImg aiImg)
       (drawImageAt0 originalImg (createCanvas (bm_width originalImg) (bm_height originalImg)))
       sels"

definition composite :: "resampler \<Rightarrow> bitmap \<Rightarrow> bitmap \<Rightarrow> SelectionArea list \<Rightarrow> bitmap" where
  "composite rs originalImg aiImg sels = toDataURL (compositeCanvas rs originalImg aiImg sels)"

section \<open>The restore handler (lines 258--352)\<close>

text \<open>\<open>String.prototype.trim\<close> removes the code units of ECMAScript's WhiteSpace and
  LineTerminator productions from both ends.\<close>

definition is_js_whitespace :: "nat \<Rightarrow> bool" where
  "is_js_whitespace c =
     (c \<in> set [9, 10, 11, 12, 13, 32, 160, 5760, 8232, 8233, 8239, 8287, 12288, 65279]
      \<or> (8192 \<le> c \<and> c \<le> 8202))"

definition trim :: "jsstring \<Rightarrow> jsstring" where
  "trim t = rev (dropWhile is_js_whitespace (rev (dropWhile is_js_whitespace t)))"

text \<open>\<open>replacements[id] || ""\<close>.\<close>

definition replacement_text :: "(int \<rightharpoonup> jsstring) \<Rightarrow> int \<Rightarrow> jsstring" where
  "replacement_text reps i = (case reps i of None \<Rightarrow> [] | Some t \<Rightarrow> t)"

definition filteredSelections :: "app_state \<Rightarrow> addr list" where
  "filteredSelections s =
     filter (\<lambda>a. trim (replacement_text (replacements s) (sel_id (deref (store s) a))) \<noteq> [])
       (selections s)"

definition areaInstruction ::
  "SelectionArea list \<Rightarrow> (int \<rightharpoonup> jsstring) \<Rightarrow> nat \<times> nat \<Rightarrow> nat \<times> addr \<Rightarrow> AreaInstruction" where
  "areaInstruction st reps cv ia =
     (let sel = deref st (snd ia)
      in \<lparr> area_no = fst ia + 1, area_rect = sel_rect sel, area_canvas = cv,
           area_text = replacement_text reps (sel_id sel) \<rparr>)"

definition areasInstructions ::
  "SelectionArea list \<Rightarrow> (int \<rightharpoonup> jsstring) \<Rightarrow> nat \<times> nat \<Rightarrow> addr list \<Rightarrow> AreaInstruction list" where
  "areasInstructions st reps cv refs =
     map (areaInstruction st reps cv) (zip [0 ..< length refs] refs)"

text \<open>\<open>image.split(',')[1]\<close>: the text between the first and the second comma.\<close>

definition base64Data :: "jsstring \<Rightarrow> jsstring option" where
  "base64Data img =
     (if 44 \<in> set img
      then Some (takeWhile (\<lambda>c. c \<noteq> 44) (drop 1 (dropWhile (\<lambda>c. c \<noteq> 44) img)))
      else None)"

definition aspectRatio :: "nat \<times> nat \<Rightarrow> aspect_ratio" where
  "aspectRatio cv =
     (if snd cv = 0 then (if fst cv = 0 then Ratio4x3 else Ratio16x9)
      else if real (fst cv) / real (snd cv) > 12 / 10 then Ratio16x9 else Ratio4x3)"

text \<open>The response of the external model: the call throws, or it answers with the parts
  of the first candidate (none when a level of \<open>candidates?.[0]?.content?.parts\<close> is
  missing). A part has an \<open>inlineData\<close> object, whose \<open>data\<close> may be missing, or not.\<close>

datatype part = TextPart | InlinePart "jsstring option"

datatype gen_result = CallFailed | Response "part list"

fun first_inline :: "part list \<Rightarrow> jsstring option" where
  "first_inline [] = None"
| "first_inline (TextPart # ps) = first_inline ps"
| "first_inline (InlinePart d # ps) = d"

text \<open>What the handler meets outside the component: the canvas element behind
  \<open>canvasRef\<close> (its width and height, when mounted), the answer of
  \<open>ai.models.generateContent\<close>, the decoding of a data URL by an \<open>Image\<close> element
  (\<open>None\<close>: \<open>onload\<close> never fires), and the browser's resampling.\<close>

record world =
  canvas :: "(nat \<times> nat) option"
  generateContent :: "gen_request \<Rightarrow> gen_result"
  loadImg :: "jsstring \<Rightarrow> bitmap option"
  resample :: resampler

definition png_prefix :: jsstring where
  "png_prefix = map of_char ''data:image/png;base64,''"

text \<open>How a call of \<open>handleRestore\<close> ends: at the guard of line 259 (\<open>NotStarted\<close>), at
  the notice of line 262 (\<open>EmptyInstruction\<close>), in the \<open>catch\<close> (\<open>RestoreFailed\<close>),
  after \<open>setResultImage\<close> (\<open>Restored\<close>), or never, waiting for an \<open>onload\<close>
  (\<open>Waiting\<close>).\<close>

datatype restore_outcome = NotStarted | EmptyInstruction | RestoreFailed | Restored | Waiting

definition restore_failed :: "app_state \<Rightarrow> restore_outcome \<times> app_state" where
  "restore_failed s =
     (RestoreFailed, s \<lparr> alerts := alerts s @ [RestoreFailedNotice], isProcessing := False \<rparr>)"

text \<open>The request of lines 294--301: the image data, one instruction per filtered
  region (the lines of \<open>areasInstructions\<close>, the fixed text of the prompt left out),
  the size and the aspect ratio.\<close>

definition restore_request ::
  "app_state \<Rightarrow> jsstring \<Rightarrow> nat \<times> nat \<Rightarrow> image_size \<Rightarrow> gen_request" where
  "restore_request s img cv targetSize =
     \<lparr> req_data = base64Data img,
       req_areas = areasInstructions (store s) (replacements s) cv (filteredSelections s),
       req_size = targetSize, req_ratio = aspectRatio cv \<rparr>"

text \<open>\<open>handleRestore\<close>, from the call to the end of its \<open>finally\<close>. The guard
  \<open>!image\<close> holds for \<open>null\<close> and for the empty string. A missing canvas makes
  \<open>originalCanvas.width\<close> throw inside the \<open>try\<close>; a falsy payload (\<open>undefined\<close>
  or the empty string) throws at line 310. Building the client and sending the request
  are one step: \<open>CallFailed\<close> stands for a throw of either, and \<open>sent\<close> records
  the request the handler built.\<close>

definition handleRestore :: "world \<Rightarrow> app_state \<Rightarrow> image_size \<Rightarrow> restore_outcome \<times> app_state" where
  "handleRestore w s targetSize =
     (case image_src s of
        None \<Rightarrow> (NotStarted, s)
      | Some img \<Rightarrow>
          if img = [] \<or> selections s = [] then (NotStarted, s)
          else if filteredSelections s = [] then
            (EmptyInstruction, s \<lparr> alerts := alerts s @ [EmptyInstructionNotice] \<rparr>)
          else
            (case canvas w of
               None \<Rightarrow> restore_failed s
             | Some cv \<Rightarrow>
                 (let req = restore_request s img cv targetSize;
                      s1 = s \<lparr> sent := sent s @ [req] \<rparr>
                  in case generateContent w req of
                       CallFailed \<Rightarrow> restore_failed s1
                     | Response parts \<Rightarrow>
                         (case first_inline parts of
                            None \<Rightarrow> restore_failed s1
                          | Some aiResultBase64 \<Rightarrow>
                              if aiResultBase64 = [] then restore_failed s1
                              else
                                (case loadImg w img of
                                   None \<Rightarrow> (Waiting, s1 \<lparr> isProcessing := True \<rparr>)
                                 | Some originalImg \<Rightarrow>
                                     (case loadImg w (png_prefix @ aiResultBase64) of
                                        None \<Rightarrow> (Waiting, s1 \<lparr> isProcessing := True \<rparr>)
                                      | Some aiImg \<Rightarrow>
                                          (Restored,
                                           s1 \<lparr> resultImage :=
                                                  Some (composite (resample w) originalImg aiImg
                                                          (deep (store s) (filteredSelections s))),
                                                isProcessing := False \<rparr>)))))))"

section \<open>Example inputs\<close>

text \<open>A 4 by 4 source image, opaque but for its top left pixel, whose alpha is 3; an
  opaque model image of another size; a resampler that paints the model image's first
  pixel; a region covering the cells \<open>(1, 1)\<close> to \<open>(2, 2)\<close>.\<close>

definition example_source :: bitmap where
  "example_source = \<lparr> bm_width = 4, bm_height = 4,
     bm_pixel = (\<lambda>i j. if i = 0 \<and> j = 0 then (200, 100, 50, 3) else (10, 20, 30, 255)) \<rparr>"

definition example_model_image :: bitmap where
  "example_model_image = \<lparr> bm_width = 8, bm_height = 6, bm_pixel = (\<lambda>i j. (9, 9, 9, 255)) \<rparr>"

definition example_resampler :: resampler where
  "example_resampler = (\<lambda>img src dst i j old. premultiply (bm_pixel img 0 0))"

definition example_region :: SelectionArea where
  "example_region = \<lparr> sel_id = 1, sel_x = 1, sel_y = 1, sel_w = 2, sel_h = 2 \<rparr>"

definition example_history :: app_state where
  "example_history =
     run_ops initial [Commit [] Map.empty, Commit [] Map.empty, Commit [] Map.empty, Undo, Undo]"

text \<open>A second region begun after the first was committed; the pointer is released
  outside the canvas, so no \<open>mouseup\<close> reaches it and nothing is committed.\<close>

definition uncommitted_draw :: app_state where
  "uncommitted_draw = run initial [MouseDown 1 (0, 0), MouseUp, MouseDown 2 (5, 5)]"

definition committed_draw :: app_state where
  "committed_draw = run initial [MouseDown 1 (0, 0), MouseMove (3, 4), MouseUp]"

text \<open>The live state is the one the snapshot at the cursor was taken of: no edit since
  the last commit.\<close>

definition committed :: "app_state \<Rightarrow> bool" where
  "committed s = (live_view s = snapshot_view s (nat (historyIndex s)) \<and>
     replacements s = hs_replacements (history s ! nat (historyIndex s)))"

text \<open>Two regions drawn and committed, then a third begun whose \<open>mouseup\<close> never
  reaches the canvas: \<open>isDrawing\<close> stays set.\<close>

definition stuck_gesture :: "event list" where
  "stuck_gesture =
     [MouseDown 1 (0, 0), MouseUp, MouseDown 2 (5, 5), MouseUp, MouseDown 3 (50, 50)]"

text \<open>Ten regions begun on the canvas.\<close>

definition ten_regions :: app_state where
  "ten_regions = run initial [MouseDown 1 (0, 0), MouseDown 2 (0, 0), MouseDown 3 (0, 0),
     MouseDown 4 (0, 0), MouseDown 5 (0, 0), MouseDown 6 (0, 0), MouseDown 7 (0, 0),
     MouseDown 8 (0, 0), MouseDown 9 (0, 0), MouseDown 10 (0, 0)]"

text \<open>A session on a loaded image: a zero-area region (a click without a drag) whose
  replacement text is \<open>"A"\<close>, and a 100 by 70 region without text.\<close>

definition example_image :: jsstring where
  "example_image = png_prefix @ [65, 65]"

definition example_session :: app_state where
  "example_session =
     updateReplacement
       (run (loadImage initial example_image)
          [MouseDown 1 (10, 10), MouseUp, MouseDown 2 (20, 20), MouseMove (120, 90), MouseUp])
       1 [65]"

text \<open>The same session with the result of an earlier restore on display.\<close>

definition earlier_result :: app_state where
  "earlier_result = example_session \<lparr> resultImage := Some example_model_image \<rparr>"

text \<open>A world whose model call throws, one whose model answers without an image part,
  and one whose model answers with an image.\<close>

definition failing_world :: world where
  "failing_world = \<lparr> canvas = Some (800, 600), generateContent = (\<lambda>req. CallFailed),
     loadImg = (\<lambda>url. Some example_source), resample = example_resampler \<rparr>"

definition no_payload_world :: world where
  "no_payload_world = \<lparr> canvas = Some (800, 600), generateContent = (\<lambda>req. Response [TextPart]),
     loadImg = (\<lambda>url. Some example_source), resample = example_resampler \<rparr>"

definition answering_world :: world where
  "answering_world = \<lparr> canvas = Some (800, 600),
     generateContent = (\<lambda>req. Response [TextPart, InlinePart (Some [66, 66])]),
     loadImg = (\<lambda>url. Some example_source), resample = example_resampler \<rparr>"

text \<open>\<open>image\<close> is truthy: neither \<open>null\<close> nor the empty string.\<close>

definition image_present :: "app_state \<Rightarrow> bool" where
  "image_present s = (image_src s \<noteq> None \<and> image_src s \<noteq> Some [])"

text \<open>The region at address \<open>a\<close> has non-empty, non-whitespace replacement text.\<close>

definition has_text :: "app_state \<Rightarrow> addr \<Rightarrow> bool" where
  "has_text s a = (\<exists>c \<in> set (replacement_text (replacements s) (sel_id (deref (store s) a))).
     \<not> is_js_whitespace c)"

section \<open>The history invariant\<close>

lemma hist_inv_initial: "hist_inv initial"
  by (simp add: hist_inv_def initial_def)

lemma slice0_length:
  "- 1 \<le> i \<Longrightarrow> i \<le> int (length xs) - 1 \<Longrightarrow> length (slice0 xs (i + 1)) = nat (i + 1)"
  by (simp add: slice0_def)

lemma slice0_take: "- 1 \<le> i \<Longrightarrow> slice0 xs (i + 1) = take (nat (i + 1)) xs"
  by (simp add: slice0_def)

lemma pushToHistory_history:
  "history (pushToHistory s sels reps) =
     (let updated = slice0 (history s) (historyIndex s + 1) @
            [\<lparr> hs_selections = copied_refs (store s) sels, hs_replacements = reps \<rparr>]
      in if length updated > 50 then drop 1 updated else updated)"
  by (simp add: pushToHistory_def Let_def)

lemma pushToHistory_index:
  "historyIndex (pushToHistory s sels reps) = min (historyIndex s + 1) 49"
  by (simp add: pushToHistory_def Let_def)

lemma pushToHistory_length:
  assumes "hist_inv s"
  shows "int (length (history (pushToHistory s sels reps))) = min (historyIndex s + 2) 50"
proof -
  have "length (slice0 (history s) (historyIndex s + 1)) = nat (historyIndex s + 1)"
    using assms by (simp add: slice0_length hist_inv_def)
  then show ?thesis
    using assms by (auto simp: pushToHistory_history Let_def hist_inv_def)
qed

lemma hist_inv_pushToHistory: "hist_inv s \<Longrightarrow> hist_inv (pushToHistory s sels reps)"
  using pushToHistory_length [of s sels reps]
  by (auto simp: hist_inv_def pushToHistory_index)

lemma hist_inv_undo: "hist_inv s \<Longrightarrow> hist_inv (undo s)"
  by (auto simp: hist_inv_def undo_def split: option.splits)

lemma hist_inv_redo: "hist_inv s \<Longrightarrow> hist_inv (redo s)"
  by (auto simp: hist_inv_def redo_def split: option.splits)

lemma hist_inv_apply_op: "hist_inv s \<Longrightarrow> hist_inv (apply_op s op)"
  by (cases op) (simp_all add: hist_inv_pushToHistory hist_inv_undo hist_inv_redo)

lemma hist_inv_run_ops: "hist_inv s \<Longrightarrow> hist_inv (run_ops s ops)"
  by (induction ops arbitrary: s) (simp_all add: hist_inv_apply_op)

text \<open>
  Claim C2. For every sequence of commit, undo and redo operations starting from the empty
  history, the history log never holds more than 50 snapshots and the cursor
  \<open>historyIndex\<close> lies between \<open>-1\<close> and the last index of the log.
\<close>

theorem history_bounded:
  "length (history (run_ops initial ops)) \<le> 50 \<and>
   - 1 \<le> historyIndex (run_ops initial ops) \<and>
   historyIndex (run_ops initial ops) \<le> int (length (history (run_ops initial ops))) - 1"
  using hist_inv_run_ops [OF hist_inv_initial, of ops] by (simp add: hist_inv_def)

section \<open>The compositor\<close>

lemma unat_channel_le: "unat (c :: channel) \<le> 255"
  using unsigned_less [of c, where ?'a = nat] by simp

lemma to_channel_unat: "to_channel (unat c) = c"
  by (simp add: to_channel_def unat_channel_le min_absorb2)

lemma round_div_mult:
  assumes "0 < d"
  shows "round_div (n * d) d = n"
proof -
  have "2 * (n * d) + d = d + n * (2 * d)" by simp
  then have "(2 * (n * d) + d) div (2 * d) = n + d div (2 * d)"
    using assms by (simp only: div_mult_self3) simp
  with assms show ?thesis by (simp add: round_div_def)
qed

lemma premul_opaque: "premul c 255 = c"
  by (simp add: premul_def round_div_mult to_channel_unat)

lemma unpremul_opaque: "unpremul c 255 = c"
  by (simp add: unpremul_def round_div_mult to_channel_unat)

lemma over_transparent: "over_channel c a 0 = c"
  by (simp add: over_channel_def round_div_def to_channel_unat)

lemma source_over_blank: "source_over p (0, 0, 0, 0) = p"
  by (simp add: source_over_def over_transparent split: prod.splits)

lemma opaque_round_trip: "unpremultiply (premultiply (r, g, b, 255)) = (r, g, b, 255)"
  by (simp add: premultiply_def unpremultiply_def premul_opaque unpremul_opaque)

lemma paste_width: "bm_width (paste rs a b cv sel) = bm_width cv"
  by (simp add: paste_def drawImageSub_def Let_def split: prod.splits)

lemma paste_height: "bm_height (paste rs a b cv sel) = bm_height cv"
  by (simp add: paste_def drawImageSub_def Let_def split: prod.splits)

lemma paste_pixel:
  "\<not> cell_meets i j (sel_rect sel) \<Longrightarrow> bm_pixel (paste rs a b cv sel) i j = bm_pixel cv i j"
  by (simp add: paste_def drawImageSub_def Let_def split: prod.splits)

lemma foldl_paste_width: "bm_width (foldl (paste rs a b) cv sels) = bm_width cv"
  by (induction sels arbitrary: cv) (simp_all add: paste_width)

lemma foldl_paste_height: "bm_height (foldl (paste rs a b) cv sels) = bm_height cv"
  by (induction sels arbitrary: cv) (simp_all add: paste_height)

lemma foldl_paste_pixel:
  "\<forall>sel \<in> set sels. \<not> cell_meets i j (sel_rect sel) \<Longrightarrow>
     bm_pixel (foldl (paste rs a b) cv sels) i j = bm_pixel cv i j"
  by (induction sels arbitrary: cv) (simp_all add: paste_pixel)

lemma base_canvas_pixel:
  "i < bm_width src \<Longrightarrow> j < bm_height src \<Longrightarrow>
     bm_pixel (drawImageAt0 src (createCanvas (bm_width src) (bm_height src))) i j =
       premultiply (bm_pixel src i j)"
  by (simp add: drawImageAt0_def createCanvas_def source_over_blank)

lemma composite_dimensions:
  "bm_width (composite rs src ai sels) = bm_width src \<and>
   bm_height (composite rs src ai sels) = bm_height src"
  by (simp add: composite_def compositeCanvas_def toDataURL_def foldl_paste_width
      foldl_paste_height drawImageAt0_def createCanvas_def)

text \<open>Outside the regions the composite holds the source's pixel after the canvas's two
  roundings.\<close>

lemma composite_outside:
  assumes "i < bm_width src" "j < bm_height src"
    and "\<forall>sel \<in> set sels. \<not> cell_meets i j (sel_rect sel)"
  shows "bm_pixel (composite rs src ai sels) i j = unpremultiply (premultiply (bm_pixel src i j))"
  using assms
  by (simp add: composite_def compositeCanvas_def toDataURL_def foldl_paste_pixel
      base_canvas_pixel)

text \<open>
  What the code keeps of its promise: the composite has the dimensions of the source,
  whatever the model image's are, and every opaque pixel of the source whose cell meets
  none of the regions' rectangles is in the composite as it is in the source, whatever
  the browser paints inside a destination rectangle.
\<close>

lemma composite_keeps_opaque_outside:
  assumes "i < bm_width src" "j < bm_height src"
    and "\<forall>sel \<in> set sels. \<not> cell_meets i j (sel_rect sel)"
    and "bm_pixel src i j = (r, g, b, 255)"
  shows "bm_pixel (composite rs src ai sels) i j = bm_pixel src i j"
  using composite_outside [OF assms(1-3), of rs ai] assms(4)
  by (simp add: opaque_round_trip)

lemma composite_example_opaque:
  "bm_pixel example_source 3 0 = (10, 20, 30, 255) \<and>
   \<not> cell_meets 3 0 (sel_rect example_region) \<and>
   bm_pixel (composite example_resampler example_source example_model_image [example_region]) 3 0
     = (10, 20, 30, 255) \<and>
   cell_meets 1 2 (sel_rect example_region) \<and>
   bm_pixel (composite example_resampler example_source example_model_image [example_region]) 1 2
     = (9, 9, 9, 255)"
proof -
  have out: "\<forall>sel \<in> set [example_region]. \<not> cell_meets 3 0 (sel_rect sel)"
    by (simp add: cell_meets_def sel_rect_def example_region_def)
  have px: "bm_pixel example_source 3 0 = (10, 20, 30, 255)"
    and dim: "(3::nat) < bm_width example_source" "(0::nat) < bm_height example_source"
    by (simp_all add: example_source_def)
  from composite_keeps_opaque_outside [OF dim out px, of example_resampler example_model_image] px
  have a: "bm_pixel (composite example_resampler example_source example_model_image
      [example_region]) 3 0 = (10, 20, 30, 255)"
    by simp
  have b: "bm_pixel (composite example_resampler example_source example_model_image
      [example_region]) 1 2 = (9, 9, 9, 255)"
    by (simp add: composite_def compositeCanvas_def toDataURL_def paste_def drawImageSub_def
        drawImageAt0_def createCanvas_def cell_meets_def sel_rect_def example_region_def
        example_source_def example_model_image_def example_resampler_def Let_def
        opaque_round_trip)
  from a b out px show ?thesis
    by (simp add: cell_meets_def sel_rect_def example_region_def)
qed

text \<open>
  Claim C1 says that every pixel of the composite outside the union of the regions'
  rectangles is identical to the source's pixel, for every source image, and that with
  no region the composite is pixel-identical to the source. The sessions below evaluate
  the code on a source image whose top left pixel has alpha 3: the cell \<open>(0, 0)\<close> meets
  no region, the source's pixel there is \<open>(200, 100, 50, 3)\<close>, and the composite's is
  \<open>(170, 85, 85, 3)\<close>, with the region and with no region at all; the dimensions are
  the source's.
\<close>

theorem composite_changes_translucent_pixel:
  "bm_pixel example_source 0 0 = (200, 100, 50, 3) \<and>
   \<not> cell_meets 0 0 (sel_rect example_region) \<and>
   bm_pixel (composite example_resampler example_source example_model_image [example_region]) 0 0
     = (170, 85, 85, 3) \<and>
   bm_pixel (composite example_resampler example_source example_model_image []) 0 0
     = (170, 85, 85, 3) \<and>
   bm_width (composite example_resampler example_source example_model_image [example_region]) = 4 \<and>
   bm_height (composite example_resampler example_source example_model_image [example_region]) = 4"
proof -
  have cell: "\<not> cell_meets 0 0 (sel_rect example_region)"
    by (simp add: cell_meets_def sel_rect_def example_region_def)
  have src: "bm_pixel example_source 0 0 = (200, 100, 50, 3)"
    and dim: "(0::nat) < bm_width example_source" "(0::nat) < bm_height example_source"
    "bm_width example_source = 4" "bm_height example_source = 4"
    by (simp_all add: example_source_def)
  have trip: "unpremultiply (premultiply (200, 100, 50, 3)) = (170, 85, 85, 3)"
    by (simp add: premultiply_def unpremultiply_def premul_def unpremul_def round_div_def
        to_channel_def)
  have one: "bm_pixel (composite example_resampler example_source example_model_image
      [example_region]) 0 0 = (170, 85, 85, 3)"
    using composite_outside [OF dim(1,2), of "[example_region]" example_resampler
        example_model_image] cell
    by (simp add: src trip)
  have none: "bm_pixel (composite example_resampler example_source example_model_image [])
      0 0 = (170, 85, 85, 3)"
    using composite_outside [OF dim(1,2), of "[]" example_resampler example_model_image]
    by (simp add: src trip)
  from cell src one none dim(3,4)
    composite_dimensions [of example_resampler example_source example_model_image
      "[example_region]"]
  show ?thesis by simp
qed

section \<open>The frame of \<open>undo\<close> and \<open>redo\<close>\<close>

text \<open>
  Claim C10. \<open>undo\<close> and \<open>redo\<close> never change the history log: the sequence of
  stored snapshots (and the store of objects they refer to) is the same afterwards, and
  the only fields of the state they write are the live selections, the live
  replacements and the cursor \<open>historyIndex\<close>.
\<close>

theorem undo_redo_keep_log:
  "history (undo s) = history s \<and> store (undo s) = store s \<and>
   history (redo s) = history s \<and> store (redo s) = store s \<and>
   undo s = s \<lparr> selections := selections (undo s), replacements := replacements (undo s),
                historyIndex := historyIndex (undo s) \<rparr> \<and>
   redo s = s \<lparr> selections := selections (redo s), replacements := replacements (redo s),
                historyIndex := historyIndex (redo s) \<rparr>"
  by (simp add: undo_def redo_def split: option.splits)

section \<open>Commit\<close>

lemmas handler_defs = initial_def onMouseDown_def onMouseUp_def onMouseMove_def pushToHistory_def
  undo_def redo_def can_undo_def can_redo_def slice0_def js_index_def copied_refs_def
  copied_store_def deep_def deref_def snapshot_view_def live_view_def bounding_box_def
  MAX_SELECTIONS_def Let_def

lemma deep_copied:
  "refs_ok st refs \<Longrightarrow> deep (copied_store st refs) (copied_refs st refs) = deep st refs"
  by (auto simp: deep_def copied_store_def copied_refs_def deref_def refs_ok_def list_all_iff
      nth_append intro!: nth_equalityI)

text \<open>
  Claim C4. For every history log with its cursor at position \<open>i\<close>, a commit keeps
  exactly the snapshots at positions \<open>0..i\<close>, appends the new snapshot (whose content
  is the committed selections and replacements), drops the oldest entry when the length
  would exceed 50, and leaves the cursor on the newest entry, so that redo is unavailable
  right after the commit.
\<close>

theorem commit_truncates_and_appends:
  assumes "hist_inv s"
  shows "history (pushToHistory s sels reps) =
           (let updated = take (nat (historyIndex s + 1)) (history s) @
                  [\<lparr> hs_selections = copied_refs (store s) sels, hs_replacements = reps \<rparr>]
            in if length updated > 50 then drop 1 updated else updated) \<and>
         length (take (nat (historyIndex s + 1)) (history s)) = nat (historyIndex s + 1) \<and>
         last (history (pushToHistory s sels reps)) =
           \<lparr> hs_selections = copied_refs (store s) sels, hs_replacements = reps \<rparr> \<and>
         historyIndex (pushToHistory s sels reps) =
           int (length (history (pushToHistory s sels reps))) - 1 \<and>
         \<not> can_redo (pushToHistory s sels reps) \<and>
         redo (pushToHistory s sels reps) = pushToHistory s sels reps \<and>
         (refs_ok (store s) sels \<longrightarrow>
            deep (store (pushToHistory s sels reps)) (copied_refs (store s) sels) = deep (store s) sels)"
proof -
  let ?s' = "pushToHistory s sels reps"
  let ?new = "\<lparr> hs_selections = copied_refs (store s) sels, hs_replacements = reps \<rparr>"
  let ?kept = "take (nat (historyIndex s + 1)) (history s)"
  from assms have lo: "- 1 \<le> historyIndex s" and hi: "historyIndex s \<le> int (length (history s)) - 1"
    and cap: "length (history s) \<le> 50"
    by (simp_all add: hist_inv_def)
  have hist: "history ?s' = (let updated = ?kept @ [?new]
                            in if length updated > 50 then drop 1 updated else updated)"
    using lo by (simp add: pushToHistory_history slice0_take)
  have len: "length ?kept = nat (historyIndex s + 1)"
    using hi by simp
  have lst: "last (history ?s') = ?new"
    unfolding hist by (simp add: Let_def)
  have idx: "historyIndex ?s' = int (length (history ?s')) - 1"
    using pushToHistory_length [OF assms, of sels reps] hi cap
    by (simp add: pushToHistory_index)
  have noredo: "\<not> can_redo ?s'"
    using idx by (simp add: can_redo_def)
  have same: "redo ?s' = ?s'"
    using idx by (simp add: redo_def)
  have copy: "refs_ok (store s) sels \<longrightarrow> deep (store ?s') (copied_refs (store s) sels) = deep (store s) sels"
    by (simp add: pushToHistory_def Let_def deep_copied)
  from hist len lst idx noredo same copy show ?thesis by blast
qed


theorem commit_truncates_and_appends_witness:
  "hist_inv example_history \<and> historyIndex example_history = 0 \<and>
   length (history example_history) = 3 \<and>
   length (history (pushToHistory example_history [] Map.empty)) = 2 \<and>
   historyIndex (pushToHistory example_history [] Map.empty) = 1 \<and>
   \<not> can_redo (pushToHistory example_history [] Map.empty)"
proof -
  have inv: "hist_inv example_history"
    unfolding example_history_def by (rule hist_inv_run_ops [OF hist_inv_initial])
  have idx: "historyIndex example_history = 0" and len: "length (history example_history) = 3"
    by (simp_all add: example_history_def initial_def pushToHistory_def undo_def slice0_def
        js_index_def copied_refs_def copied_store_def deep_def Let_def)
  note inst = commit_truncates_and_appends [OF inv, of "[]" Map.empty]
  from inst have "length (history (pushToHistory example_history [] Map.empty)) = 2"
    using idx len by (simp add: Let_def)
  with inst inv idx len show ?thesis by simp
qed

section \<open>Undo followed by redo\<close>

text \<open>
  A second region is begun and not yet committed; undo and redo are both legal, and
  after the pair the live selections are the one committed region, not the two that were
  there before the undo.
\<close>

theorem undo_redo_loses_uncommitted:
  "can_undo uncommitted_draw \<and> can_redo (undo uncommitted_draw) \<and>
   length (live_view uncommitted_draw) = 2 \<and>
   length (live_view (redo (undo uncommitted_draw))) = 1 \<and>
   live_view (redo (undo uncommitted_draw)) \<noteq> live_view uncommitted_draw"
  by (simp add: uncommitted_draw_def handler_defs)

lemma undo_redo_cursor:
  assumes "can_undo s" "can_redo (undo s)"
  shows "historyIndex s < int (length (history s)) \<and>
         redo (undo s) = s \<lparr> selections := hs_selections (history s ! nat (historyIndex s)),
                            replacements := hs_replacements (history s ! nat (historyIndex s)) \<rparr>"
proof (cases "historyIndex s = 0")
  case True
  with assms show ?thesis
    by (simp add: can_undo_def can_redo_def undo_def redo_def js_index_def)
next
  case False
  with assms(1) have pos: "historyIndex s > 0" by (simp add: can_undo_def)
  show ?thesis
  proof (cases "historyIndex s - 1 < int (length (history s))")
    case True
    with pos assms(2) show ?thesis
      by (simp add: can_redo_def undo_def redo_def js_index_def)
  next
    case False
    with pos assms(2) show ?thesis
      by (simp add: can_redo_def undo_def js_index_def)
  qed
qed

text \<open>
  Claim C3, as amended. Whenever an undo is legal, the redo right after it is legal and
  the live state has no uncommitted edit (it is the state the snapshot at the cursor
  was taken of), undo followed by redo restores exactly the selections and replacements
  that held before the undo, and the cursor and the log with them. Without the last
  condition the pair installs the snapshot at the cursor, and an uncommitted edit is
  lost.
\<close>

theorem undo_redo_restores_committed:
  assumes "can_undo s" "can_redo (undo s)" "committed s"
  shows "live_view (redo (undo s)) = live_view s \<and>
         replacements (redo (undo s)) = replacements s \<and>
         historyIndex (redo (undo s)) = historyIndex s \<and>
         history (redo (undo s)) = history s"
  using undo_redo_cursor [OF assms(1,2)] assms(3)
  by (simp add: committed_def live_view_def snapshot_view_def)

theorem undo_redo_restores_committed_witness:
  "can_undo committed_draw \<and> can_redo (undo committed_draw) \<and> committed committed_draw \<and>
   live_view committed_draw = [\<lparr> sel_id = 1, sel_x = 0, sel_y = 0, sel_w = 3, sel_h = 4 \<rparr>] \<and>
   live_view (undo committed_draw) = [] \<and>
   live_view (redo (undo committed_draw)) = [\<lparr> sel_id = 1, sel_x = 0, sel_y = 0, sel_w = 3, sel_h = 4 \<rparr>]"
proof -
  have a: "can_undo committed_draw" and b: "can_redo (undo committed_draw)"
    and c: "committed committed_draw"
    and d: "live_view committed_draw = [\<lparr> sel_id = 1, sel_x = 0, sel_y = 0, sel_w = 3, sel_h = 4 \<rparr>]"
    and e: "live_view (undo committed_draw) = []"
    by (simp_all add: committed_draw_def committed_def handler_defs)
  from undo_redo_restores_committed [OF a b c] a b c d e show ?thesis by simp
qed

section \<open>Stored snapshots and in-place writes\<close>

text \<open>
  Claim C6 says that a stored snapshot stays deep-equal to its value at the commit under
  every later sequence of selection operations. The session below evaluates the code:
  after \<open>stuck_gesture\<close> snapshot 0 holds the region \<open>(0, 0, 0, 0)\<close>; \<open>undo\<close>
  then makes that snapshot's array the live one, and the next pointer move writes the
  bounding box into its last object, so snapshot 0 holds \<open>(50, 50, 20, 30)\<close>, while
  the log's references are the same.
\<close>

theorem snapshot_mutated_after_undo:
  "snapshot_view (run initial stuck_gesture) 0 =
     [\<lparr> sel_id = 1, sel_x = 0, sel_y = 0, sel_w = 0, sel_h = 0 \<rparr>] \<and>
   snapshot_view (run initial (stuck_gesture @ [ClickUndo, MouseMove (70, 80)])) 0 =
     [\<lparr> sel_id = 1, sel_x = 50, sel_y = 50, sel_w = 20, sel_h = 30 \<rparr>] \<and>
   history (run initial (stuck_gesture @ [ClickUndo, MouseMove (70, 80)])) =
     history (run initial stuck_gesture)"
  by (simp add: stuck_gesture_def handler_defs)

section \<open>Pointer moves\<close>

lemma deep_last: "refs \<noteq> [] \<Longrightarrow> last (deep st refs) = deref st (last refs)"
  by (simp add: deep_def last_map)

text \<open>
  Claim C7. While a drag gesture is active, a pointer move sets the last region's
  rectangle to the bounding box of the gesture's start position and the current
  position: \<open>x\<close> and \<open>y\<close> are the coordinate-wise minima, \<open>w\<close> and \<open>h\<close> the
  absolute differences (so never negative), whatever the direction of the drag; the
  region's id and the list of regions are as before. When no gesture is active a
  pointer move changes nothing. The drag from \<open>(100, 50)\<close> to \<open>(60, 150)\<close> is the
  instance that follows the theorem.
\<close>

theorem mouse_move_bounding_box:
  "(\<not> isDrawing s \<longrightarrow> onMouseMove s pos = s) \<and>
   (isDrawing s \<and> selections s \<noteq> [] \<and> refs_ok (store s) (selections s) \<longrightarrow>
      selections (onMouseMove s pos) = selections s \<and>
      last (live_view (onMouseMove s pos)) = bounding_box (startPos s) pos (last (live_view s)) \<and>
      sel_x (last (live_view (onMouseMove s pos))) = min (fst (startPos s)) (fst pos) \<and>
      sel_y (last (live_view (onMouseMove s pos))) = min (snd (startPos s)) (snd pos) \<and>
      sel_w (last (live_view (onMouseMove s pos))) = \<bar>fst pos - fst (startPos s)\<bar> \<and>
      sel_h (last (live_view (onMouseMove s pos))) = \<bar>snd pos - snd (startPos s)\<bar> \<and>
      sel_id (last (live_view (onMouseMove s pos))) = sel_id (last (live_view s)) \<and>
      0 \<le> sel_w (last (live_view (onMouseMove s pos))) \<and>
      0 \<le> sel_h (last (live_view (onMouseMove s pos))))"
proof -
  have idle: "onMouseMove s pos = s" if "\<not> isDrawing s"
    using that by (simp add: onMouseMove_def)
  have active: "selections (onMouseMove s pos) = selections s \<and>
      last (live_view (onMouseMove s pos)) = bounding_box (startPos s) pos (last (live_view s))"
    if d: "isDrawing s" and ne: "selections s \<noteq> []" and ok: "refs_ok (store s) (selections s)"
  proof -
    from ne ok have "last (selections s) < length (store s)"
      by (simp add: refs_ok_def list_all_iff)
    with d ne show ?thesis
      by (simp add: onMouseMove_def Let_def live_view_def deep_last deref_def)
  qed
  from idle active show ?thesis
    by (auto simp: bounding_box_def)
qed

theorem mouse_move_bounding_box_witness:
  "isDrawing (onMouseDown initial 1 (100, 50)) \<and>
   selections (onMouseDown initial 1 (100, 50)) \<noteq> [] \<and>
   refs_ok (store (onMouseDown initial 1 (100, 50))) (selections (onMouseDown initial 1 (100, 50))) \<and>
   live_view (onMouseMove (onMouseDown initial 1 (100, 50)) (60, 150)) =
     [\<lparr> sel_id = 1, sel_x = 60, sel_y = 50, sel_w = 40, sel_h = 100 \<rparr>] \<and>
   \<not> isDrawing initial \<and> onMouseMove initial (60, 150) = initial"
proof -
  let ?s = "onMouseDown initial 1 (100, 50)"
  have pre: "isDrawing ?s" "selections ?s \<noteq> []" "refs_ok (store ?s) (selections ?s)"
    and start: "startPos ?s = (100, 50)"
    and before: "live_view ?s = [\<lparr> sel_id = 1, sel_x = 100, sel_y = 50, sel_w = 0, sel_h = 0 \<rparr>]"
    by (simp_all add: refs_ok_def handler_defs)
  have idle: "\<not> isDrawing initial" by (simp add: initial_def)
  note inst = mouse_move_bounding_box [of ?s "(60, 150)"]
  from inst pre have sel: "selections (onMouseMove ?s (60, 150)) = selections ?s"
    and lst: "last (live_view (onMouseMove ?s (60, 150))) =
        bounding_box (startPos ?s) (60, 150) (last (live_view ?s))"
    by blast+
  have "length (live_view (onMouseMove ?s (60, 150))) = 1"
    using sel by (simp add: live_view_def deep_def handler_defs)
  then have one: "live_view (onMouseMove ?s (60, 150)) = [last (live_view (onMouseMove ?s (60, 150)))]"
    by (cases "live_view (onMouseMove ?s (60, 150))") simp_all
  have "live_view (onMouseMove ?s (60, 150)) =
     [\<lparr> sel_id = 1, sel_x = 60, sel_y = 50, sel_w = 40, sel_h = 100 \<rparr>]"
    by (subst one) (simp add: lst start before bounding_box_def)
  moreover from mouse_move_bounding_box [of initial "(60, 150)"] idle
  have "onMouseMove initial (60, 150) = initial" by blast
  ultimately show ?thesis using pre idle by simp
qed

section \<open>Pointer down\<close>

text \<open>
  Claim C8. \<open>onMouseDown\<close> leaves the selection state as it is while a restore is in
  progress, and also when the region count has reached the maximum of 10 (then it only
  raises the notice); otherwise it appends exactly one region of zero width and height
  at the pointer position, and marks the gesture as active with that start position.
\<close>

theorem mouse_down_begins_region:
  "MAX_SELECTIONS = 10 \<and>
   (isProcessing s \<longrightarrow> onMouseDown s newId pos = s) \<and>
   (\<not> isProcessing s \<and> length (selections s) \<ge> MAX_SELECTIONS \<longrightarrow>
      onMouseDown s newId pos = s \<lparr> alerts := alerts s @ [MaxSelectionsNotice] \<rparr>) \<and>
   (\<not> isProcessing s \<and> length (selections s) < MAX_SELECTIONS \<longrightarrow>
      length (selections (onMouseDown s newId pos)) = length (selections s) + 1 \<and>
      butlast (selections (onMouseDown s newId pos)) = selections s \<and>
      last (live_view (onMouseDown s newId pos)) =
        \<lparr> sel_id = newId, sel_x = fst pos, sel_y = snd pos, sel_w = 0, sel_h = 0 \<rparr> \<and>
      (refs_ok (store s) (selections s) \<longrightarrow>
         live_view (onMouseDown s newId pos) = live_view s @
           [\<lparr> sel_id = newId, sel_x = fst pos, sel_y = snd pos, sel_w = 0, sel_h = 0 \<rparr>]) \<and>
      isDrawing (onMouseDown s newId pos) \<and> startPos (onMouseDown s newId pos) = pos)"
proof -
  have view: "live_view (onMouseDown s newId pos) = live_view s @
           [\<lparr> sel_id = newId, sel_x = fst pos, sel_y = snd pos, sel_w = 0, sel_h = 0 \<rparr>]"
    if "\<not> isProcessing s" "length (selections s) < MAX_SELECTIONS" "refs_ok (store s) (selections s)"
    using that
    by (auto simp: onMouseDown_def live_view_def deep_def deref_def refs_ok_def list_all_iff nth_append)
  have lst: "last (live_view (onMouseDown s newId pos)) =
        \<lparr> sel_id = newId, sel_x = fst pos, sel_y = snd pos, sel_w = 0, sel_h = 0 \<rparr>"
    if "\<not> isProcessing s" "length (selections s) < MAX_SELECTIONS"
    using that by (simp add: onMouseDown_def live_view_def deep_def deref_def)
  show ?thesis
    using view lst by (simp add: onMouseDown_def MAX_SELECTIONS_def)
qed

theorem mouse_down_begins_region_witness:
  "\<not> isProcessing ten_regions \<and> length (selections ten_regions) = 10 \<and>
   length (selections (onMouseDown ten_regions 11 (7, 7))) = 10 \<and>
   selections (onMouseDown ten_regions 11 (7, 7)) = selections ten_regions \<and>
   store (onMouseDown ten_regions 11 (7, 7)) = store ten_regions \<and>
   \<not> isProcessing initial \<and> length (selections initial) < MAX_SELECTIONS \<and>
   refs_ok (store initial) (selections initial) \<and>
   live_view (onMouseDown initial 11 (7, 7)) =
     [\<lparr> sel_id = 11, sel_x = 7, sel_y = 7, sel_w = 0, sel_h = 0 \<rparr>] \<and>
   isDrawing (onMouseDown initial 11 (7, 7)) \<and>
   isProcessing (initial \<lparr> isProcessing := True \<rparr>) \<and>
   onMouseDown (initial \<lparr> isProcessing := True \<rparr>) 11 (7, 7) = initial \<lparr> isProcessing := True \<rparr>"
proof -
  have ten: "\<not> isProcessing ten_regions" "length (selections ten_regions) = 10"
    by (simp_all add: ten_regions_def handler_defs)
  have ini: "\<not> isProcessing initial" "length (selections initial) < MAX_SELECTIONS"
    "refs_ok (store initial) (selections initial)" "live_view initial = []"
    by (simp_all add: refs_ok_def handler_defs)
  have busy: "isProcessing (initial \<lparr> isProcessing := True \<rparr>)" by simp
  from mouse_down_begins_region [of ten_regions 11 "(7, 7)"] ten
  have a: "onMouseDown ten_regions 11 (7, 7) = ten_regions \<lparr> alerts := alerts ten_regions @ [MaxSelectionsNotice] \<rparr>"
    by simp
  from mouse_down_begins_region [of initial 11 "(7, 7)"] ini
  have b: "live_view (onMouseDown initial 11 (7, 7)) =
     [\<lparr> sel_id = 11, sel_x = 7, sel_y = 7, sel_w = 0, sel_h = 0 \<rparr>]"
    "isDrawing (onMouseDown initial 11 (7, 7))"
    by simp_all
  from mouse_down_begins_region [of "initial \<lparr> isProcessing := True \<rparr>" 11 "(7, 7)"] busy
  have c: "onMouseDown (initial \<lparr> isProcessing := True \<rparr>) 11 (7, 7) = initial \<lparr> isProcessing := True \<rparr>"
    by blast
  show ?thesis using ten ini a b c by simp
qed

section \<open>The restore handler\<close>

lemmas restore_defs = handleRestore_def restore_failed_def restore_request_def filteredSelections_def
  replacement_text_def trim_def is_js_whitespace_def areasInstructions_def areaInstruction_def
  sel_rect_def base64Data_def aspectRatio_def updateReplacement_def loadImage_def
  MAX_CHAR_LIMIT_def png_prefix_def

lemma trim_empty_iff: "trim t = [] \<longleftrightarrow> (\<forall>c \<in> set t. is_js_whitespace c)"
proof
  assume "trim t = []"
  then have all: "\<forall>c \<in> set (dropWhile is_js_whitespace t). is_js_whitespace c"
    by (simp add: trim_def)
  have "dropWhile is_js_whitespace t = []"
  proof (rule ccontr)
    assume ne: "dropWhile is_js_whitespace t \<noteq> []"
    then have "\<not> is_js_whitespace (hd (dropWhile is_js_whitespace t))"
      by (rule hd_dropWhile)
    moreover from ne have "hd (dropWhile is_js_whitespace t) \<in> set (dropWhile is_js_whitespace t)"
      by simp
    ultimately show False using all by blast
  qed
  then show "\<forall>c \<in> set t. is_js_whitespace c" by simp
next
  assume "\<forall>c \<in> set t. is_js_whitespace c"
  then show "trim t = []" by (auto simp: trim_def dest: set_dropWhileD)
qed

lemma filteredSelections_set:
  "set (filteredSelections s) = {a \<in> set (selections s). has_text s a}"
  by (auto simp: filteredSelections_def has_text_def trim_empty_iff)

lemma filteredSelections_empty:
  "filteredSelections s = [] \<longleftrightarrow> (\<forall>a \<in> set (selections s). \<not> has_text s a)"
  using filteredSelections_set [of s] by (auto simp flip: set_empty)

lemma areasInstructions_text:
  "map area_text (areasInstructions st reps cv refs) =
     map (\<lambda>a. replacement_text reps (sel_id (deref st a))) refs"
  by (rule nth_equalityI) (simp_all add: areasInstructions_def areaInstruction_def Let_def)

lemma handleRestore_sends:
  "image_src s = Some img \<Longrightarrow> img \<noteq> [] \<Longrightarrow> canvas w = Some cv \<Longrightarrow>
     filteredSelections s \<noteq> [] \<Longrightarrow>
     sent (snd (handleRestore w s sz)) = sent s @ [restore_request s img cv sz]"
  by (auto simp: handleRestore_def restore_failed_def Let_def filteredSelections_def
      split: gen_result.splits option.splits)

lemma filteredSelections_store:
  assumes "\<forall>a \<in> set (selections s). sel_id (deref st a) = sel_id (deref (store s) a)"
  shows "filteredSelections (s \<lparr> store := st \<rparr>) = filteredSelections s"
  unfolding filteredSelections_def using assms by (auto intro: filter_cong)

text \<open>
  With an image loaded and no region at all, no region has replacement text, and yet
  the handler returns at its first guard: no notice is raised.
\<close>

theorem restore_not_started_without_regions:
  "image_present (loadImage initial example_image) \<and>
   filteredSelections (loadImage initial example_image) = [] \<and>
   fst (handleRestore failing_world (loadImage initial example_image) Size1K) \<noteq> EmptyInstruction \<and>
   alerts (snd (handleRestore failing_world (loadImage initial example_image) Size1K)) = []"
  by (simp add: handleRestore_def loadImage_def initial_def filteredSelections_def
      image_present_def example_image_def png_prefix_def)

text \<open>
  Claim C5, as amended. With an image loaded and at least one region, the restore handler
  ends with the empty-instruction notice exactly when no region has non-empty,
  non-whitespace replacement text, and then before any request is sent and without
  touching the result; with no image or no region it returns at once, silently. The
  filter looks at the replacement text only: its result is the regions with text, it is
  the same for any store that agrees on the regions' ids (whatever the geometry), and
  when a request is sent it carries one instruction per filtered region, with that
  region's text.
\<close>

theorem restore_empty_instruction:
  "(image_present s \<and> selections s \<noteq> [] \<longrightarrow>
      (fst (handleRestore w s sz) = EmptyInstruction \<longleftrightarrow>
         (\<forall>a \<in> set (selections s). \<not> has_text s a))) \<and>
   (\<not> image_present s \<or> selections s = [] \<longrightarrow> handleRestore w s sz = (NotStarted, s)) \<and>
   (fst (handleRestore w s sz) = EmptyInstruction \<longrightarrow>
      sent (snd (handleRestore w s sz)) = sent s \<and>
      alerts (snd (handleRestore w s sz)) = alerts s @ [EmptyInstructionNotice] \<and>
      resultImage (snd (handleRestore w s sz)) = resultImage s) \<and>
   set (filteredSelections s) = {a \<in> set (selections s). has_text s a} \<and>
   ((\<forall>a \<in> set (selections s). sel_id (deref st a) = sel_id (deref (store s) a)) \<longrightarrow>
      filteredSelections (s \<lparr> store := st \<rparr>) = filteredSelections s) \<and>
   (image_src s = Some img \<and> img \<noteq> [] \<and> canvas w = Some cv \<and>
      filteredSelections s \<noteq> [] \<longrightarrow>
      sent (snd (handleRestore w s sz)) = sent s @ [restore_request s img cv sz] \<and>
      map area_text (req_areas (restore_request s img cv sz)) =
        map (\<lambda>a. replacement_text (replacements s) (sel_id (deref (store s) a)))
          (filteredSelections s))"
proof -
  have iff: "fst (handleRestore w s sz) = EmptyInstruction \<longleftrightarrow>
         (\<forall>a \<in> set (selections s). \<not> has_text s a)"
    if "image_present s" "selections s \<noteq> []"
  proof -
    from that obtain img where img: "image_src s = Some img" "img \<noteq> []"
      by (auto simp: image_present_def)
    have "fst (handleRestore w s sz) = EmptyInstruction \<longleftrightarrow> filteredSelections s = []"
      using img that(2)
      by (auto simp: handleRestore_def restore_failed_def Let_def
          split: gen_result.splits option.splits)
    then show ?thesis by (simp add: filteredSelections_empty)
  qed
  have early: "handleRestore w s sz = (NotStarted, s)" if "\<not> image_present s \<or> selections s = []"
    using that by (auto simp: handleRestore_def image_present_def split: option.splits)
  have quiet: "sent (snd (handleRestore w s sz)) = sent s \<and>
      alerts (snd (handleRestore w s sz)) = alerts s @ [EmptyInstructionNotice] \<and>
      resultImage (snd (handleRestore w s sz)) = resultImage s"
    if "fst (handleRestore w s sz) = EmptyInstruction"
    using that
    by (auto simp: handleRestore_def restore_failed_def Let_def
        split: gen_result.splits option.splits if_splits)
  have req: "sent (snd (handleRestore w s sz)) = sent s @ [restore_request s img cv sz] \<and>
      map area_text (req_areas (restore_request s img cv sz)) =
        map (\<lambda>a. replacement_text (replacements s) (sel_id (deref (store s) a)))
          (filteredSelections s)"
    if "image_src s = Some img" "img \<noteq> []" "canvas w = Some cv" "filteredSelections s \<noteq> []"
    using that by (simp add: handleRestore_sends restore_request_def areasInstructions_text)
  from iff early quiet req filteredSelections_set [of s] filteredSelections_store [of s st]
  show ?thesis by blast
qed

theorem restore_empty_instruction_witness:
  "image_present example_session \<and> selections example_session \<noteq> [] \<and>
   live_view example_session =
     [\<lparr> sel_id = 1, sel_x = 10, sel_y = 10, sel_w = 0, sel_h = 0 \<rparr>,
      \<lparr> sel_id = 2, sel_x = 20, sel_y = 20, sel_w = 100, sel_h = 70 \<rparr>] \<and>
   replacements example_session 1 = Some [65] \<and> replacements example_session 2 = None \<and>
   has_text example_session 0 \<and> \<not> has_text example_session 2 \<and>
   filteredSelections example_session = [0] \<and>
   fst (handleRestore failing_world example_session Size2K) \<noteq> EmptyInstruction \<and>
   map area_text (req_areas (last (sent (snd (handleRestore failing_world example_session Size2K)))))
     = [[65]] \<and>
   fst (handleRestore failing_world (updateReplacement example_session 1 [32, 12288]) Size2K)
     = EmptyInstruction"
proof -
  have pre: "image_src example_session = Some example_image" "selections example_session = [0, 2]"
    "image_present example_session" "example_image \<noteq> []"
    and view: "live_view example_session =
     [\<lparr> sel_id = 1, sel_x = 10, sel_y = 10, sel_w = 0, sel_h = 0 \<rparr>,
      \<lparr> sel_id = 2, sel_x = 20, sel_y = 20, sel_w = 100, sel_h = 70 \<rparr>]"
    and reps: "replacements example_session 1 = Some [65]" "replacements example_session 2 = None"
    and filt: "filteredSelections example_session = [0]"
    by (simp_all add: example_session_def example_image_def image_present_def restore_defs
        handler_defs)
  have hast: "has_text example_session 0" "\<not> has_text example_session 2"
    by (simp_all add: has_text_def example_session_def restore_defs handler_defs)
  have cv: "canvas failing_world = Some (800, 600)" by (simp add: failing_world_def)
  note inst = restore_empty_instruction [of example_session failing_world Size2K "store example_session"
      example_image "(800, 600)"]
  from inst pre hast have a: "fst (handleRestore failing_world example_session Size2K) \<noteq> EmptyInstruction"
    by simp
  from inst pre cv filt
  have b: "map area_text (req_areas (last (sent (snd (handleRestore failing_world example_session Size2K)))))
     = [[65]]"
    by (simp add: example_session_def restore_defs handler_defs)
  let ?blank = "updateReplacement example_session 1 [32, 12288]"
  have pre': "image_present ?blank" "selections ?blank = [0, 2]"
    "\<not> has_text ?blank 0" "\<not> has_text ?blank 2"
    by (simp_all add: has_text_def example_session_def example_image_def image_present_def
        restore_defs handler_defs)
  from restore_empty_instruction [of ?blank failing_world Size2K "store ?blank" example_image "(800, 600)"] pre'
  have c: "fst (handleRestore failing_world ?blank Size2K) = EmptyInstruction"
    by simp
  from pre view reps filt hast a b c show ?thesis by simp
qed

lemma handleRestore_result_kept:
  "fst (handleRestore w s sz) \<noteq> Restored \<Longrightarrow>
     resultImage (snd (handleRestore w s sz)) = resultImage s"
  by (auto simp: handleRestore_def restore_failed_def Let_def
      split: gen_result.splits option.splits if_splits)

lemma handleRestore_failed_state:
  "fst (handleRestore w s sz) = RestoreFailed \<Longrightarrow>
     alerts (snd (handleRestore w s sz)) = alerts s @ [RestoreFailedNotice] \<and>
     \<not> isProcessing (snd (handleRestore w s sz)) \<and>
     selections (snd (handleRestore w s sz)) = selections s \<and>
     replacements (snd (handleRestore w s sz)) = replacements s \<and>
     history (snd (handleRestore w s sz)) = history s \<and>
     historyIndex (snd (handleRestore w s sz)) = historyIndex s \<and>
     store (snd (handleRestore w s sz)) = store s"
  by (auto simp: handleRestore_def restore_failed_def Let_def
      split: gen_result.splits option.splits if_splits)

lemma handleRestore_one_call:
  "length (sent (snd (handleRestore w s sz))) \<le> length (sent s) + 1"
  by (auto simp: handleRestore_def restore_failed_def Let_def
      split: gen_result.splits option.splits if_splits)

lemma handleRestore_call_failed:
  "image_src s = Some img \<Longrightarrow> img \<noteq> [] \<Longrightarrow> filteredSelections s \<noteq> [] \<Longrightarrow>
     canvas w = Some cv \<Longrightarrow>
     generateContent w (restore_request s img cv sz) = CallFailed \<Longrightarrow>
     fst (handleRestore w s sz) = RestoreFailed"
  by (auto simp: handleRestore_def restore_failed_def Let_def filteredSelections_def)

lemma handleRestore_no_payload:
  "image_src s = Some img \<Longrightarrow> img \<noteq> [] \<Longrightarrow> filteredSelections s \<noteq> [] \<Longrightarrow>
     canvas w = Some cv \<Longrightarrow>
     generateContent w (restore_request s img cv sz) = Response parts \<Longrightarrow>
     first_inline parts = None \<or> first_inline parts = Some [] \<Longrightarrow>
     fst (handleRestore w s sz) = RestoreFailed"
  by (auto simp: handleRestore_def restore_failed_def Let_def filteredSelections_def)

text \<open>
  Claim C9. A run of the restore handler in which the external call fails, or the
  response has no image payload (no part with inline data, or one whose data is missing
  or empty), ends in the failure branch; there the result image is
  the one from before, exactly one failure notice is raised, the processing flag is
  cleared, and selections, replacements and history are untouched. The result image
  changes only in a run that completes, and a run sends at most one request (no retry).
\<close>

theorem restore_failure_commits_nothing:
  "(image_src s = Some img \<and> img \<noteq> [] \<and> filteredSelections s \<noteq> [] \<and>
      canvas w = Some cv \<and>
      (generateContent w (restore_request s img cv sz) = CallFailed \<or>
       (\<exists>parts. generateContent w (restore_request s img cv sz) = Response parts \<and>
            (first_inline parts = None \<or> first_inline parts = Some []))) \<longrightarrow>
      fst (handleRestore w s sz) = RestoreFailed) \<and>
   (fst (handleRestore w s sz) = RestoreFailed \<longrightarrow>
      resultImage (snd (handleRestore w s sz)) = resultImage s \<and>
      alerts (snd (handleRestore w s sz)) = alerts s @ [RestoreFailedNotice] \<and>
      \<not> isProcessing (snd (handleRestore w s sz)) \<and>
      selections (snd (handleRestore w s sz)) = selections s \<and>
      replacements (snd (handleRestore w s sz)) = replacements s \<and>
      history (snd (handleRestore w s sz)) = history s \<and>
      historyIndex (snd (handleRestore w s sz)) = historyIndex s) \<and>
   (resultImage (snd (handleRestore w s sz)) \<noteq> resultImage s \<longrightarrow>
      fst (handleRestore w s sz) = Restored) \<and>
   length (sent (snd (handleRestore w s sz))) \<le> length (sent s) + 1"
proof -
  have kept: "resultImage (snd (handleRestore w s sz)) = resultImage s"
    if "fst (handleRestore w s sz) = RestoreFailed"
    using that handleRestore_result_kept [of w s sz] by simp
  from kept handleRestore_result_kept [of w s sz] handleRestore_failed_state [of w s sz]
    handleRestore_one_call [of w s sz] handleRestore_call_failed [of s img w cv sz]
    handleRestore_no_payload [of s img w cv sz]
  show ?thesis by blast
qed

theorem restore_failure_commits_nothing_witness:
  "image_src earlier_result = Some example_image \<and> example_image \<noteq> [] \<and>
   filteredSelections earlier_result \<noteq> [] \<and>
   canvas failing_world = Some (800, 600) \<and>
   generateContent failing_world (restore_request earlier_result example_image (800, 600) Size4K)
     = CallFailed \<and>
   fst (handleRestore failing_world earlier_result Size4K) = RestoreFailed \<and>
   resultImage (snd (handleRestore failing_world earlier_result Size4K)) = Some example_model_image \<and>
   alerts (snd (handleRestore failing_world earlier_result Size4K)) = [RestoreFailedNotice] \<and>
   length (sent (snd (handleRestore failing_world earlier_result Size4K))) = 1 \<and>
   generateContent no_payload_world (restore_request earlier_result example_image (800, 600) Size4K)
     = Response [TextPart] \<and>
   first_inline [TextPart] = None \<and>
   fst (handleRestore no_payload_world earlier_result Size4K) = RestoreFailed \<and>
   resultImage (snd (handleRestore no_payload_world earlier_result Size4K)) = Some example_model_image \<and>
   alerts (snd (handleRestore no_payload_world earlier_result Size4K)) = [RestoreFailedNotice]"
proof -
  have pre: "image_src earlier_result = Some example_image" "filteredSelections earlier_result = [0]"
    "resultImage earlier_result = Some example_model_image" "alerts earlier_result = []"
    "sent earlier_result = []" "example_image \<noteq> []"
    by (simp_all add: earlier_result_def example_session_def example_image_def restore_defs
        handler_defs)
  have w1: "canvas failing_world = Some (800, 600)"
    "generateContent failing_world (restore_request earlier_result example_image (800, 600) Size4K)
       = CallFailed"
    by (simp_all add: failing_world_def)
  have w2: "canvas no_payload_world = Some (800, 600)"
    "generateContent no_payload_world (restore_request earlier_result example_image (800, 600) Size4K)
       = Response [TextPart]"
    "first_inline [TextPart] = None"
    by (simp_all add: no_payload_world_def)
  note i1 = restore_failure_commits_nothing [of earlier_result example_image failing_world
      "(800, 600)" Size4K]
  from i1 pre w1 have f1: "fst (handleRestore failing_world earlier_result Size4K) = RestoreFailed"
    by simp
  with i1 pre have r1:
    "resultImage (snd (handleRestore failing_world earlier_result Size4K)) = Some example_model_image"
    "alerts (snd (handleRestore failing_world earlier_result Size4K)) = [RestoreFailedNotice]"
    by simp_all
  have n1: "length (sent (snd (handleRestore failing_world earlier_result Size4K))) = 1"
    using pre w1 by (simp add: handleRestore_sends)
  note i2 = restore_failure_commits_nothing [of earlier_result example_image no_payload_world
      "(800, 600)" Size4K]
  from i2 pre w2 have f2: "fst (handleRestore no_payload_world earlier_result Size4K) = RestoreFailed"
    by simp
  with i2 pre have r2:
    "resultImage (snd (handleRestore no_payload_world earlier_result Size4K)) = Some example_model_image"
    "alerts (snd (handleRestore no_payload_world earlier_result Size4K)) = [RestoreFailedNotice]"
    by simp_all
  from pre w1 w2 f1 r1 n1 f2 r2 show ?thesis by simp
qed

lemma handleRestore_completes_example:
  "fst (handleRestore answering_world earlier_result Size1K) = Restored \<and>
   resultImage (snd (handleRestore answering_world earlier_result Size1K)) =
     Some (composite example_resampler example_source example_source
             [\<lparr> sel_id = 1, sel_x = 10, sel_y = 10, sel_w = 0, sel_h = 0 \<rparr>])"
  by (simp add: answering_world_def earlier_result_def example_session_def example_image_def
      restore_defs handler_defs)

section \<open>Invariants of a session\<close>

text \<open>
  Every state a session reaches from the initial one holds allocated references only,
  and keeps the bounds of the history log, whatever the events are: the hypotheses
  \<open>refs_ok\<close> and \<open>hist_inv\<close> of the results above hold in every session.
\<close>

lemma refs_ok_append: "refs_ok st refs \<Longrightarrow> refs_ok (st @ ys) refs"
  by (auto simp: refs_ok_def list_all_iff)

lemma refs_ok_update: "refs_ok (st[a := v]) refs = refs_ok st refs"
  by (simp add: refs_ok_def)

lemma refs_ok_copied: "refs_ok (copied_store st refs) (copied_refs st refs)"
  by (auto simp: refs_ok_def list_all_iff copied_store_def copied_refs_def deep_def)

lemma refs_ok_filter: "refs_ok st refs \<Longrightarrow> refs_ok st (filter P refs)"
  by (auto simp: refs_ok_def list_all_iff)

lemma history_ok_append:
  "list_all (\<lambda>h. refs_ok st (hs_selections h)) hs \<Longrightarrow>
     list_all (\<lambda>h. refs_ok (st @ ys) (hs_selections h)) hs"
  by (auto simp: list_all_iff refs_ok_append)

lemma list_all_slice0: "list_all P xs \<Longrightarrow> list_all P (slice0 xs e)"
  by (auto simp: slice0_def list_all_iff dest: in_set_takeD)

lemma list_all_drop: "list_all P xs \<Longrightarrow> list_all P (drop n xs)"
  by (auto simp: list_all_iff dest: in_set_dropD)

lemma wf_pushToHistory:
  assumes "wf_state s"
  shows "wf_state (pushToHistory s sels reps)"
proof -
  from assms have live: "refs_ok (store s) (selections s)"
    and hist: "list_all (\<lambda>h. refs_ok (store s) (hs_selections h)) (history s)"
    by (simp_all add: wf_state_def)
  let ?st = "copied_store (store s) sels"
  have st: "?st = store s @ deep (store s) sels" by (simp add: copied_store_def)
  have live': "refs_ok ?st (selections s)"
    unfolding st using live by (rule refs_ok_append)
  have "list_all (\<lambda>h. refs_ok ?st (hs_selections h)) (history s)"
    unfolding st using hist by (rule history_ok_append)
  then have kept: "list_all (\<lambda>h. refs_ok ?st (hs_selections h))
      (slice0 (history s) (historyIndex s + 1))"
    by (rule list_all_slice0)
  have "list_all (\<lambda>h. refs_ok ?st (hs_selections h))
      (slice0 (history s) (historyIndex s + 1) @
         [\<lparr> hs_selections = copied_refs (store s) sels, hs_replacements = reps \<rparr>])"
    using kept by (simp add: refs_ok_copied)
  then have "list_all (\<lambda>h. refs_ok ?st (hs_selections h)) (history (pushToHistory s sels reps))"
    by (auto simp: pushToHistory_history Let_def intro: list_all_drop)
  with live' show ?thesis
    by (simp add: wf_state_def pushToHistory_def Let_def)
qed

lemma wf_undo: "wf_state s \<Longrightarrow> wf_state (undo s)"
  by (auto simp: wf_state_def undo_def js_index_def refs_ok_def list_all_iff split: if_splits)

lemma wf_redo: "wf_state s \<Longrightarrow> wf_state (redo s)"
  by (auto simp: wf_state_def redo_def js_index_def refs_ok_def list_all_iff split: if_splits)

lemma wf_onMouseDown: "wf_state s \<Longrightarrow> wf_state (onMouseDown s newId pos)"
  by (fastforce simp: wf_state_def onMouseDown_def refs_ok_def list_all_iff intro: less_SucI)

lemma wf_onMouseMove: "wf_state s \<Longrightarrow> wf_state (onMouseMove s pos)"
  by (auto simp: wf_state_def onMouseMove_def Let_def refs_ok_update)

lemma wf_onMouseUp: "wf_state s \<Longrightarrow> wf_state (onMouseUp s)"
proof -
  assume wf: "wf_state s"
  then have "wf_state (s \<lparr> isDrawing := False \<rparr>)" by (simp add: wf_state_def)
  then have "wf_state (pushToHistory (s \<lparr> isDrawing := False \<rparr>) (selections s) (replacements s))"
    by (rule wf_pushToHistory)
  with wf show ?thesis by (simp add: onMouseUp_def)
qed

lemma wf_removeSelection: "wf_state s \<Longrightarrow> wf_state (removeSelection s i)"
proof -
  assume wf: "wf_state s"
  let ?keep = "filter (\<lambda>a. sel_id (deref (store s) a) \<noteq> i) (selections s)"
  from wf have "wf_state (s \<lparr> selections := ?keep, replacements := (replacements s)(i := None) \<rparr>)"
    by (simp add: wf_state_def refs_ok_filter)
  then show ?thesis
    unfolding removeSelection_def Let_def by (rule wf_pushToHistory)
qed

lemma wf_step: "wf_state s \<Longrightarrow> wf_state (step s e)"
proof (cases e)
  case (ReplacementBlur i)
  assume "wf_state s"
  then show ?thesis
    using ReplacementBlur
    by (auto simp: handleReplacementBlur_def wf_pushToHistory split: option.splits)
next
  case (UpdateReplacement i t)
  assume "wf_state s"
  then show ?thesis using UpdateReplacement by (simp add: updateReplacement_def wf_state_def)
next
  case (LoadImage img)
  assume "wf_state s"
  then show ?thesis using LoadImage by (simp add: loadImage_def wf_state_def refs_ok_def)
qed (simp_all add: wf_onMouseDown wf_onMouseMove wf_onMouseUp wf_removeSelection wf_undo wf_redo)

lemma wf_run: "wf_state s \<Longrightarrow> wf_state (run s es)"
  by (induction es arbitrary: s) (simp_all add: wf_step)

lemma wf_initial: "wf_state initial"
  by (simp add: wf_state_def initial_def refs_ok_def)

lemma session_refs_ok: "refs_ok (store (run initial es)) (selections (run initial es))"
  using wf_run [OF wf_initial, of es] by (simp add: wf_state_def)

lemma hist_inv_step: "hist_inv s \<Longrightarrow> hist_inv (step s e)"
proof (cases e)
  case (ReplacementBlur i)
  assume "hist_inv s"
  then show ?thesis using ReplacementBlur
    by (auto simp: handleReplacementBlur_def hist_inv_pushToHistory split: option.splits)
next
  case MouseUp
  assume inv: "hist_inv s"
  then have "hist_inv (s \<lparr> isDrawing := False \<rparr>)" by (simp add: hist_inv_def)
  then have "hist_inv (pushToHistory (s \<lparr> isDrawing := False \<rparr>) (selections s) (replacements s))"
    by (rule hist_inv_pushToHistory)
  with inv MouseUp show ?thesis by (simp add: onMouseUp_def)
next
  case (RemoveSelection i)
  assume inv: "hist_inv s"
  let ?keep = "filter (\<lambda>a. sel_id (deref (store s) a) \<noteq> i) (selections s)"
  from inv have "hist_inv (s \<lparr> selections := ?keep, replacements := (replacements s)(i := None) \<rparr>)"
    by (simp add: hist_inv_def)
  then have "hist_inv (removeSelection s i)"
    unfolding removeSelection_def Let_def by (rule hist_inv_pushToHistory)
  with RemoveSelection show ?thesis by simp
next
  case (MouseDown newId pos)
  assume "hist_inv s"
  then show ?thesis using MouseDown by (simp add: onMouseDown_def hist_inv_def)
next
  case (MouseMove pos)
  assume "hist_inv s"
  then show ?thesis using MouseMove by (simp add: onMouseMove_def hist_inv_def Let_def)
next
  case (UpdateReplacement i t)
  assume "hist_inv s"
  then show ?thesis using UpdateReplacement by (simp add: updateReplacement_def hist_inv_def)
next
  case (LoadImage img)
  then show ?thesis by (simp add: loadImage_def hist_inv_def)
qed (simp_all add: hist_inv_undo hist_inv_redo)

lemma hist_inv_run: "hist_inv s \<Longrightarrow> hist_inv (run s es)"
  by (induction es arbitrary: s) (simp_all add: hist_inv_step)

end
